theory Spec2Isabelle
  imports Main "HOL-Library.Word"
begin

section \<open>Storage: the two-phase-commit participant (package storage)\<close>

text \<open>
  The participant wraps a handle of the SQL engine. The engine is a collaborator: the
  model records every call made on the handle in a trace and takes the engine's answers
  as functions of the trace of calls made so far, so that any deterministic engine is an
  instance.
\<close>

type_synonym uint64 = "64 word"
type_synonym int64 = "64 word"

text \<open>\<^verbatim>\<open>type TxID struct { ConnectionID uint64; SeqNo uint64; Timestamp int64 }\<close>\<close>

record TxID =
  ConnectionID :: uint64
  SeqNo :: uint64
  Timestamp :: int64

text \<open>
  \<^verbatim>\<open>type ExecLog struct\<close> has the three fields of a TxID and the statements.
\<close>

record ExecLog = TxID +
  Queries :: "string list"

text \<open>The literal \<^verbatim>\<open>TxID{el.ConnectionID, el.SeqNo, el.Timestamp}\<close>.\<close>

definition txid_of :: "ExecLog \<Rightarrow> TxID" where
  "txid_of el = \<lparr>ConnectionID = ConnectionID el, SeqNo = SeqNo el, Timestamp = Timestamp el\<rparr>"

definition equalTxID :: "TxID \<Rightarrow> TxID \<Rightarrow> bool" where
  "equalTxID x y \<longleftrightarrow>
     ConnectionID x = ConnectionID y \<and> SeqNo x = SeqNo y \<and> Timestamp x = Timestamp y"

text \<open>
  \<^verbatim>\<open>twopc.WriteBatch\<close> is an interface; the participant downcasts it to
  \<^verbatim>\<open>*ExecLog\<close>.
\<close>

datatype WriteBatch = ExecLogBatch ExecLog | OtherBatch

text \<open>
  The errors of the package: the three messages it builds itself, and the errors the SQL
  engine hands back, which are passed on unchanged.
\<close>

datatype error =
    ErrUnexpectedWriteBatch
  | ErrInconsistentState uint64 uint64 int64
  | ErrTxNotPrepared
  | ErrSQL string

text \<open>
  Calls made on the engine, in order. \<open>BeginTx ro\<close> carries the read-only option,
  \<open>TxCommit r\<close> the answer the engine gave.
\<close>

datatype sql_event =
    BeginTx bool
  | ExecContext string
  | TxExec string
  | TxQuery string
  | RowsClose
  | TxRollback
  | TxCommit "error option"

text \<open>A result set as \<^verbatim>\<open>*sql.Rows\<close> hands it out.\<close>

record rows =
  Columns :: "error + string list"
  ColumnTypes :: "error + string list"
  Scans :: "(error + string list) list"
  Err :: "error option"

record engine =
  begin_res :: "sql_event list \<Rightarrow> bool \<Rightarrow> error + nat"
  exec_res :: "sql_event list \<Rightarrow> string \<Rightarrow> error + (int64 \<times> error option)"
  query_res :: "sql_event list \<Rightarrow> string \<Rightarrow> error + rows"
  commit_res :: "sql_event list \<Rightarrow> error option"

text \<open>
  \<^verbatim>\<open>type Storage struct { sync.Mutex; dsn string; db *sql.DB; tx *sql.Tx; id TxID; queries []string }\<close>.
  The field \<^verbatim>\<open>id\<close> is \<open>tx_id\<close> here; \<open>db\<close> is the trace of calls on the handle; a nil
  slice is the empty list. The mutex serialises the three 2PC operations, so each is one
  atomic step on the record.
\<close>

record Storage =
  dsn :: string
  db :: "sql_event list"
  tx :: "nat option"
  tx_id :: TxID
  queries :: "string list"

definition inconsistent :: "Storage \<Rightarrow> error" where
  "inconsistent s =
     ErrInconsistentState (ConnectionID (tx_id s)) (SeqNo (tx_id s)) (Timestamp (tx_id s))"

text \<open>\<^verbatim>\<open>func New(dsn string)\<close>, after \<^verbatim>\<open>openDB\<close> succeeded: all other fields are zero.\<close>

definition New :: "string \<Rightarrow> Storage" where
  "New d = \<lparr>dsn = d, db = [], tx = None,
            tx_id = \<lparr>ConnectionID = 0, SeqNo = 0, Timestamp = 0\<rparr>, queries = []\<rparr>"

definition Prepare :: "engine \<Rightarrow> Storage \<Rightarrow> WriteBatch \<Rightarrow> error option \<times> Storage" where
  "Prepare e s wb =
     (case wb of
        OtherBatch \<Rightarrow> (Some ErrUnexpectedWriteBatch, s)
      | ExecLogBatch el \<Rightarrow>
          (case tx s of
             Some h \<Rightarrow>
               if equalTxID (tx_id s) (txid_of el)
               then (None, s\<lparr>queries := Queries el\<rparr>)
               else (Some (inconsistent s), s)
           | None \<Rightarrow>
               (case begin_res e (db s) False of
                  Inl err \<Rightarrow> (Some err, s\<lparr>db := db s @ [BeginTx False], tx := None\<rparr>)
                | Inr h \<Rightarrow>
                    (None, s\<lparr>db := db s @ [BeginTx False], tx := Some h,
                              tx_id := txid_of el, queries := Queries el\<rparr>))))"

text \<open>
  The loop \<^verbatim>\<open>for _, q := range s.queries\<close> of Commit: it stops at the first statement
  the engine refuses.
\<close>

fun exec_queries :: "engine \<Rightarrow> sql_event list \<Rightarrow> string list \<Rightarrow> error option \<times> sql_event list" where
  "exec_queries e tr [] = (None, tr)"
| "exec_queries e tr (q # qs) =
     (case exec_res e tr q of
        Inl err \<Rightarrow> (Some err, tr @ [ExecContext q])
      | Inr _ \<Rightarrow> exec_queries e (tr @ [ExecContext q]) qs)"

definition Commit :: "engine \<Rightarrow> Storage \<Rightarrow> WriteBatch \<Rightarrow> error option \<times> Storage" where
  "Commit e s wb =
     (case wb of
        OtherBatch \<Rightarrow> (Some ErrUnexpectedWriteBatch, s)
      | ExecLogBatch el \<Rightarrow>
          (case tx s of
             Some h \<Rightarrow>
               if equalTxID (tx_id s) (txid_of el)
               then (case exec_queries e (db s) (queries s) of
                       (Some err, tr) \<Rightarrow>
                         (Some err, s\<lparr>db := tr @ [TxRollback], tx := None, queries := []\<rparr>)
                     | (None, tr) \<Rightarrow>
                         (None, s\<lparr>db := tr @ [TxCommit (commit_res e tr)],
                                   tx := None, queries := []\<rparr>))
               else (Some (inconsistent s), s)
           | None \<Rightarrow> (Some ErrTxNotPrepared, s)))"

definition Rollback :: "Storage \<Rightarrow> WriteBatch \<Rightarrow> error option \<times> Storage" where
  "Rollback s wb =
     (case wb of
        OtherBatch \<Rightarrow> (Some ErrUnexpectedWriteBatch, s)
      | ExecLogBatch el \<Rightarrow>
          if \<not> equalTxID (tx_id s) (txid_of el) then (Some (inconsistent s), s)
          else (case tx s of
                  Some h \<Rightarrow> (None, s\<lparr>db := db s @ [TxRollback], tx := None, queries := []\<rparr>)
                | None \<Rightarrow> (None, s)))"

text \<open>
  The loop \<^verbatim>\<open>for rows.Next()\<close> of Query: rows scanned so far are kept when a scan fails.
\<close>

fun scan_rows :: "(error + string list) list \<Rightarrow> string list list \<Rightarrow> string list list \<times> error option" where
  "scan_rows [] acc = (acc, None)"
| "scan_rows (Inl err # rs) acc = (acc, Some err)"
| "scan_rows (Inr r # rs) acc = scan_rows rs (acc @ [r])"

text \<open>
  \<^verbatim>\<open>func (s *Storage) Query\<close>: the four named results and the storage with its trace.
  The deferred \<^verbatim>\<open>rows.Close()\<close> and \<^verbatim>\<open>tx.Rollback()\<close> run on every exit after
  they were registered.
\<close>

text \<open>What Query returns once the result set is open: columns, types, rows, error.\<close>

definition read_rows :: "rows \<Rightarrow> string list \<times> string list \<times> string list list \<times> error option" where
  "read_rows r =
     (case Columns r of
        Inl err \<Rightarrow> ([], [], [], Some err)
      | Inr cols \<Rightarrow>
          (case ColumnTypes r of
             Inl err \<Rightarrow> (cols, [], [], Some err)
           | Inr tys \<Rightarrow>
               (case scan_rows (Scans r) [] of
                  (data, Some err) \<Rightarrow> (cols, tys, data, Some err)
                | (data, None) \<Rightarrow> (cols, tys, data, Err r))))"

definition Query ::
  "engine \<Rightarrow> Storage \<Rightarrow> string list \<Rightarrow>
     (string list \<times> string list \<times> string list list \<times> error option) \<times> Storage" where
  "Query e s qs =
     (case qs of
        [] \<Rightarrow> (([], [], [], None), s)
      | q # _ \<Rightarrow>
          (case begin_res e (db s) True of
             Inl err \<Rightarrow> (([], [], [], Some err), s\<lparr>db := db s @ [BeginTx True]\<rparr>)
           | Inr h \<Rightarrow>
               (case query_res e (db s @ [BeginTx True]) q of
                  Inl err \<Rightarrow>
                    (([], [], [], Some err),
                     s\<lparr>db := db s @ [BeginTx True, TxQuery q, TxRollback]\<rparr>)
                | Inr r \<Rightarrow>
                    (read_rows r,
                     s\<lparr>db := db s @ [BeginTx True, TxQuery q, RowsClose, TxRollback]\<rparr>))))"

text \<open>\<^verbatim>\<open>func (s *Storage) Exec\<close>: the affected-row count, the error, and the storage.\<close>

definition Exec :: "engine \<Rightarrow> Storage \<Rightarrow> string list \<Rightarrow> (int64 \<times> error option) \<times> Storage" where
  "Exec e s qs =
     (case qs of
        [] \<Rightarrow> ((0, None), s)
      | q # _ \<Rightarrow>
          (case begin_res e (db s) False of
             Inl err \<Rightarrow> ((0, Some err), s\<lparr>db := db s @ [BeginTx False]\<rparr>)
           | Inr h \<Rightarrow>
               (let t1 = db s @ [BeginTx False] in
                case exec_res e t1 q of
                  Inl err \<Rightarrow> ((0, Some err), s\<lparr>db := t1 @ [TxExec q, TxRollback]\<rparr>)
                | Inr res \<Rightarrow>
                    (let t2 = t1 @ [TxExec q] in
                     (res, s\<lparr>db := t2 @ [TxCommit (commit_res e t2), TxRollback]\<rparr>)))))"

text \<open>An engine that accepts everything, and one that refuses the statement \<open>BadSQL\<close>.\<close>

definition no_rows :: rows where
  "no_rows = \<lparr>Columns = Inr [], ColumnTypes = Inr [], Scans = [], Err = None\<rparr>"

definition ok_engine :: engine where
  "ok_engine = \<lparr>begin_res = (\<lambda>tr ro. Inr (length tr)),
                exec_res = (\<lambda>tr q. Inr (1, None)),
                query_res = (\<lambda>tr q. Inr no_rows),
                commit_res = (\<lambda>tr. None)\<rparr>"

definition picky_engine :: engine where
  "picky_engine = \<lparr>begin_res = (\<lambda>tr ro. Inr (length tr)),
                   exec_res = (\<lambda>tr q. if q = ''BadSQL'' then Inl (ErrSQL ''syntax error'')
                                       else Inr (1, None)),
                   query_res = (\<lambda>tr q. Inr no_rows),
                   commit_res = (\<lambda>tr. Some (ErrSQL ''disk I/O error''))\<rparr>"

definition mkLog :: "uint64 \<Rightarrow> uint64 \<Rightarrow> int64 \<Rightarrow> string list \<Rightarrow> ExecLog" where
  "mkLog c n t qs = \<lparr>ConnectionID = c, SeqNo = n, Timestamp = t, Queries = qs\<rparr>"

text \<open>
  A participant that has prepared transaction (1, 2, 3) with three statements, the second
  of which the picky engine refuses.
\<close>

definition prepared_T :: Storage where
  "prepared_T = snd (Prepare picky_engine (New '':memory:'')
                       (ExecLogBatch (mkLog 1 2 3 [''Q1'', ''BadSQL'', ''Q3''])))"

definition prepared_ok :: Storage where
  "prepared_ok = snd (Prepare picky_engine (New '':memory:'')
                        (ExecLogBatch (mkLog 1 2 3 [''Q1'', ''Q2''])))"

text \<open>The same participant after its transaction (1, 2, 3) was committed.\<close>

definition committed_T :: Storage where
  "committed_T = snd (Commit picky_engine prepared_ok (ExecLogBatch (mkLog 1 2 3 [])))"

section \<open>DB Service: the coordinator (package blockproducer)\<close>

type_synonym NodeID = string
type_synonym DatabaseID = string

text \<open>
  Errors of the package, the errors its collaborators hand back, and the two run-time
  panics, of an index out of range and of \<^verbatim>\<open>rand.Intn\<close> on an argument that is
  not positive, which unwind the call instead of being returned.
\<close>

datatype bp_error =
    ErrDatabaseAllocation
  | ErrMetricNotCollected
  | ErrNoSuchDatabase
  | ErrRPC string
  | ErrKeyStore string
  | ErrSign string
  | PanicIndexOutOfRange
  | PanicInvalidArgument

subsection \<open>Batched worker requests\<close>

datatype ServiceOp = CreateDB | DropDB | UpdatePeers

text \<open>\<^verbatim>\<open>wt.UpdateService\<close>: the operation and the database it is about.\<close>

record UpdateService =
  Op :: ServiceOp
  Instance :: DatabaseID

text \<open>
  \<^verbatim>\<open>batchSendSingleSvcReq\<close> starts one goroutine per node; each sends the result of
  its \<^verbatim>\<open>CallNode\<close> on the buffered channel \<^verbatim>\<open>errCh\<close>. After \<^verbatim>\<open>wg.Wait()\<close>
  every reply is in the channel, in the order the goroutines finished: \<open>arrival\<close>
  gives that order as a rearrangement of the node list. The function then closes the
  channel and receives from it once: the reply that arrived first, or nil from the
  closed empty channel when there is no node. The second component lists the requests
  that were sent.
\<close>

definition batchSendSingleSvcReq ::
  "(NodeID \<Rightarrow> UpdateService option \<Rightarrow> bp_error option) \<Rightarrow> (NodeID list \<Rightarrow> NodeID list) \<Rightarrow>
     UpdateService option \<Rightarrow> NodeID list \<Rightarrow> bp_error option \<times> (NodeID \<times> UpdateService option) list" where
  "batchSendSingleSvcReq callNode arrival req nodes =
     (let errCh = map (\<lambda>n. callNode n req) (arrival nodes)
      in (case errCh of [] \<Rightarrow> None | r # _ \<Rightarrow> r, map (\<lambda>n. (n, req)) nodes))"

definition batchSendSvcReq ::
  "(NodeID \<Rightarrow> UpdateService option \<Rightarrow> bp_error option) \<Rightarrow> (NodeID list \<Rightarrow> NodeID list) \<Rightarrow>
     UpdateService option \<Rightarrow> UpdateService option \<Rightarrow> NodeID list \<Rightarrow>
     bp_error option \<times> (NodeID \<times> UpdateService option) list" where
  "batchSendSvcReq callNode arrival req rollbackReq nodes =
     (case batchSendSingleSvcReq callNode arrival req nodes of
        (Some err, sent) \<Rightarrow>
          (Some err, sent @ snd (batchSendSingleSvcReq callNode arrival rollbackReq nodes))
      | (None, sent) \<Rightarrow> (None, sent))"

text \<open>What the specification asks of the collected replies: the first one that is an error.\<close>

fun first_error :: "bp_error option list \<Rightarrow> bp_error option" where
  "first_error [] = None"
| "first_error (None # rs) = first_error rs"
| "first_error (Some err # rs) = Some err"

text \<open>A worker \<open>n2\<close> that refuses to create, while every other call succeeds.\<close>

definition n2_rejects_create :: "NodeID \<Rightarrow> UpdateService option \<Rightarrow> bp_error option" where
  "n2_rejects_create n req =
     (if n = ''n2'' \<and> map_option Op req = Some CreateDB then Some (ErrRPC ''create failed'')
      else None)"

definition initSvcReq :: UpdateService where
  "initSvcReq = \<lparr>Op = CreateDB, Instance = ''db''\<rparr>"

definition rollbackReq :: UpdateService where
  "rollbackReq = \<lparr>Op = DropDB, Instance = ''db''\<rparr>"

subsection \<open>Node allocation and the peer set\<close>

text \<open>
  Modelled from the spec: \<^verbatim>\<open>proto.Node\<close>, declared in another package. The
  allocation reads its identifier and its public key only.
\<close>

record ProtoNode =
  ID :: NodeID
  PublicKey :: string

text \<open>\<^verbatim>\<open>conf.Leader\<close> and \<^verbatim>\<open>conf.Follower\<close>.\<close>

datatype ServerRole = conf_Leader | conf_Follower

text \<open>
  Modelled from the spec: \<^verbatim>\<open>kayak.Server\<close> and \<^verbatim>\<open>kayak.Peers\<close>, declared in
  another package: a server is a node id, a public key and a role; a peer set is a term,
  a public key, the servers, the leader and the signature. The fields are those
  \<^verbatim>\<open>buildPeers\<close> assigns; a nil pointer is \<open>None\<close>.
\<close>

record Server =
  Role :: ServerRole
  ServerID :: NodeID
  ServerPubKey :: string

record Peers =
  Term :: uint64
  PubKey :: string
  Servers :: "Server option list"
  Leader :: "Server option"
  Signature :: "string option"

text \<open>
  Modelled from the spec: \<^verbatim>\<open>wt.ResourceMeta\<close>, declared in another package: the
  requested replica count and the memory floor in bytes. The code compares the count
  with 0 and converts it with \<^verbatim>\<open>int(...)\<close>, and compares the floor with a
  \<^verbatim>\<open>uint64\<close>.
\<close>

record ResourceMeta =
  Node :: int
  Memory :: uint64

text \<open>
  A metric family as the protobuf getters show it: its type and its samples, each with
  the gauge and the counter value after the conversion \<^verbatim>\<open>uint64(...)\<close> (a getter on
  an absent part returns 0).
\<close>

datatype MetricType = COUNTER | GAUGE | SUMMARY | UNTYPED | HISTOGRAM

record Metric =
  GaugeValue :: uint64
  CounterValue :: uint64

record MetricFamily =
  MType :: MetricType
  Metrics :: "Metric list"

text \<open>\<^verbatim>\<open>metric.MetricMap\<close> is \<^verbatim>\<open>map[string]*dto.MetricFamily\<close>.\<close>

type_synonym MetricMap = "(string \<times> MetricFamily option) list"

definition MetricFreeMemoryBytes :: string where
  "MetricFreeMemoryBytes = ''node_memory_free_bytes_total''"

definition DefaultAllocationRounds :: int where
  "DefaultAllocationRounds = 3"

text \<open>
  The collaborators of the allocation: the consistent-hashing ring, the metric
  collector (its answer in the order the \<^verbatim>\<open>range\<close> over the returned map visits
  it), the key store, \<^verbatim>\<open>rand.Intn\<close> and the signing of a peer set.
\<close>

record bp_env =
  GetNeighbors :: "string \<Rightarrow> int \<Rightarrow> ProtoNode list \<times> bp_error option"
  GetMetrics :: "NodeID list \<Rightarrow> (NodeID \<times> MetricMap) list"
  GetLocalPublicKey :: "bp_error + string"
  GetLocalPrivateKey :: "bp_error + string"
  Intn :: "nat \<Rightarrow> nat"
  Sign :: "string \<Rightarrow> Peers \<Rightarrow> bp_error + string"

record DBService =
  AllocationRounds :: int

text \<open>
  \<^verbatim>\<open>getMetric\<close>: the key must be present with a non-nil family of type GAUGE or
  COUNTER; the value is that of the first sample, and indexing an empty sample list
  panics.
\<close>

definition getMetric :: "MetricMap \<Rightarrow> string \<Rightarrow> bp_error + uint64" where
  "getMetric metric key =
     (case map_of metric key of
        None \<Rightarrow> Inl ErrMetricNotCollected
      | Some None \<Rightarrow> Inl ErrMetricNotCollected
      | Some (Some rawMetric) \<Rightarrow>
          (case MType rawMetric of
             GAUGE \<Rightarrow> (case Metrics rawMetric of
                         [] \<Rightarrow> Inl PanicIndexOutOfRange
                       | m # _ \<Rightarrow> Inr (GaugeValue m))
           | COUNTER \<Rightarrow> (case Metrics rawMetric of
                           [] \<Rightarrow> Inl PanicIndexOutOfRange
                         | m # _ \<Rightarrow> Inr (CounterValue m))
           | _ \<Rightarrow> Inl ErrMetricNotCollected))"

text \<open>
  The loop \<^verbatim>\<open>for idx, node := range allocatedNodes\<close> of \<^verbatim>\<open>buildPeers\<close>. The
  slice \<^verbatim>\<open>peers.Servers\<close> has the length it was made with; a store beyond it panics.
\<close>

fun fill_servers :: "nat \<Rightarrow> nat \<Rightarrow> ProtoNode list \<Rightarrow> Peers \<Rightarrow> bp_error + Peers" where
  "fill_servers leaderIdx idx [] peers = Inr peers"
| "fill_servers leaderIdx idx (node # rest) peers =
     (if length (Servers peers) \<le> idx then Inl PanicIndexOutOfRange
      else if idx = leaderIdx
      then fill_servers leaderIdx (Suc idx) rest
             (peers\<lparr>Servers := (Servers peers)
                        [idx := Some \<lparr>Role = conf_Leader, ServerID = ID node,
                                      ServerPubKey = PublicKey node\<rparr>],
                    Leader := Some \<lparr>Role = conf_Leader, ServerID = ID node,
                                    ServerPubKey = PublicKey node\<rparr>\<rparr>)
      else fill_servers leaderIdx (Suc idx) rest
             (peers\<lparr>Servers := (Servers peers)
                        [idx := Some \<lparr>Role = conf_Follower, ServerID = ID node,
                                      ServerPubKey = PublicKey node\<rparr>]\<rparr>))"

text \<open>
  \<^verbatim>\<open>buildPeers\<close>. The source fills \<^verbatim>\<open>allocatedMap\<close> from \<^verbatim>\<open>allocated\<close> and never
  reads it: \<^verbatim>\<open>allocatedNodes\<close> receives every element of \<^verbatim>\<open>nodes\<close>. Only the
  length of \<^verbatim>\<open>allocated\<close> is used, for the server slice and for \<^verbatim>\<open>rand.Intn\<close>,
  which panics on 0. When signing fails the error is what the callers look at.
\<close>

definition buildPeers :: "bp_env \<Rightarrow> uint64 \<Rightarrow> ProtoNode list \<Rightarrow> NodeID list \<Rightarrow> bp_error + Peers" where
  "buildPeers env term nodes allocated =
     (case GetLocalPublicKey env of
        Inl err \<Rightarrow> Inl err
      | Inr pubKey \<Rightarrow>
          (case GetLocalPrivateKey env of
             Inl err \<Rightarrow> Inl err
           | Inr privKey \<Rightarrow>
               if allocated = [] then Inl PanicInvalidArgument
               else (case fill_servers (Intn env (length allocated)) 0 nodes
                            \<lparr>Term = term, PubKey = pubKey,
                             Servers = replicate (length allocated) None,
                             Leader = None, Signature = None\<rparr> of
                       Inl err \<Rightarrow> Inl err
                     | Inr peers \<Rightarrow>
                         (case Sign env privKey peers of
                            Inl err \<Rightarrow> Inl err
                          | Inr sig \<Rightarrow> Inr (peers\<lparr>Signature := Some sig\<rparr>)))))"

text \<open>
  The first inner loop of \<^verbatim>\<open>allocateNodes\<close>: the identifiers of the neighbours that
  are not in \<^verbatim>\<open>excludeNodes\<close> (a \<^verbatim>\<open>map[proto.NodeID]bool\<close> used as a set; here the
  list of its keys).
\<close>

definition suitable :: "ProtoNode list \<Rightarrow> NodeID list \<Rightarrow> NodeID list" where
  "suitable nodes excludeNodes = map ID (filter (\<lambda>node. ID node \<notin> set excludeNodes) nodes)"

text \<open>
  The second inner loop, over the metric records: a node whose memory metric cannot be
  read, or for which \<^verbatim>\<open>resourceMeta.Memory < metricValue\<close> is false, goes to
  \<^verbatim>\<open>excludeNodes\<close>; the others are appended to \<^verbatim>\<open>allocated\<close>. A panic of
  \<^verbatim>\<open>getMetric\<close> ends the run.
\<close>

fun check_metrics ::
  "uint64 \<Rightarrow> (NodeID \<times> MetricMap) list \<Rightarrow> NodeID list \<Rightarrow> NodeID list \<Rightarrow>
     bp_error + (NodeID list \<times> NodeID list)" where
  "check_metrics memory [] allocated excludeNodes = Inr (allocated, excludeNodes)"
| "check_metrics memory ((nodeID, nodeMetric) # rest) allocated excludeNodes =
     (case getMetric nodeMetric MetricFreeMemoryBytes of
        Inl err \<Rightarrow>
          if err = PanicIndexOutOfRange then Inl err
          else check_metrics memory rest allocated (excludeNodes @ [nodeID])
      | Inr metricValue \<Rightarrow>
          if memory < metricValue
          then check_metrics memory rest (allocated @ [nodeID]) excludeNodes
          else check_metrics memory rest allocated (excludeNodes @ [nodeID]))"

text \<open>
  One round of the allocation loop: it either ends the run with the result of
  \<^verbatim>\<open>buildPeers\<close> (or a panic), or hands the next round its \<^verbatim>\<open>curRange\<close> and
  \<^verbatim>\<open>excludeNodes\<close>. The error of \<^verbatim>\<open>GetNeighbors\<close> is overwritten before any
  return and so never seen.
\<close>

datatype round_result = Retry int "NodeID list" | Done "bp_error + Peers"

definition alloc_round ::
  "bp_env \<Rightarrow> ResourceMeta \<Rightarrow> uint64 \<Rightarrow> DatabaseID \<Rightarrow> int \<Rightarrow> NodeID list \<Rightarrow> round_result" where
  "alloc_round env resourceMeta lastTerm dbID curRange excludeNodes =
     (let nodes = fst (GetNeighbors env dbID curRange);
          nodeIDs = suitable nodes excludeNodes
      in if int (length nodeIDs) < Node resourceMeta then Retry curRange excludeNodes
         else (case check_metrics (Memory resourceMeta) (GetMetrics env nodeIDs) [] excludeNodes of
                 Inl err \<Rightarrow> Done (Inl err)
               | Inr (allocated, excludeNodes') \<Rightarrow>
                   if Node resourceMeta \<le> int (length allocated)
                   then Done (buildPeers env (lastTerm + 1) nodes
                                (take (nat (Node resourceMeta)) allocated))
                   else Retry (curRange + Node resourceMeta) excludeNodes'))"

text \<open>The loop \<^verbatim>\<open>for i := 0; i != s.AllocationRounds; i++\<close>, by the rounds left.\<close>

fun alloc_loop ::
  "bp_env \<Rightarrow> ResourceMeta \<Rightarrow> uint64 \<Rightarrow> DatabaseID \<Rightarrow> nat \<Rightarrow> int \<Rightarrow> NodeID list \<Rightarrow>
     bp_error + Peers" where
  "alloc_loop env resourceMeta lastTerm dbID 0 curRange excludeNodes = Inl ErrDatabaseAllocation"
| "alloc_loop env resourceMeta lastTerm dbID (Suc k) curRange excludeNodes =
     (case alloc_round env resourceMeta lastTerm dbID curRange excludeNodes of
        Done r \<Rightarrow> r
      | Retry curRange' excludeNodes' \<Rightarrow>
          alloc_loop env resourceMeta lastTerm dbID k curRange' excludeNodes')"

text \<open>
  \<^verbatim>\<open>allocateNodes\<close>. The counter \<^verbatim>\<open>i\<close> is a 64-bit \<^verbatim>\<open>int\<close> compared with
  \<^verbatim>\<open>!=\<close>, so the number of rounds is \<^verbatim>\<open>AllocationRounds\<close> modulo \<open>2 ^ 64\<close>.
\<close>

definition allocateNodes ::
  "DBService \<Rightarrow> bp_env \<Rightarrow> uint64 \<Rightarrow> DatabaseID \<Rightarrow> ResourceMeta \<Rightarrow> bp_error + Peers" where
  "allocateNodes s env lastTerm dbID resourceMeta =
     (if Node resourceMeta \<le> 0 then Inl ErrDatabaseAllocation
      else alloc_loop env resourceMeta lastTerm dbID (nat (AllocationRounds s mod 2 ^ 64))
             (Node resourceMeta) [])"

text \<open>The server record the loop of \<^verbatim>\<open>buildPeers\<close> stores at index \<open>idx\<close>.\<close>

definition mk_server :: "nat \<Rightarrow> nat \<Rightarrow> ProtoNode \<Rightarrow> Server" where
  "mk_server leaderIdx idx node =
     \<lparr>Role = (if idx = leaderIdx then conf_Leader else conf_Follower),
      ServerID = ID node, ServerPubKey = PublicKey node\<rparr>"

text \<open>Whether the second inner loop appends the node of a metric record to \<^verbatim>\<open>allocated\<close>.\<close>

definition healthy :: "uint64 \<Rightarrow> MetricMap \<Rightarrow> bool" where
  "healthy memory nodeMetric =
     (case getMetric nodeMetric MetricFreeMemoryBytes of
        Inl err \<Rightarrow> False
      | Inr metricValue \<Rightarrow> memory < metricValue)"

text \<open>
  A cluster for the examples: a ring of the nodes a, b, c, d in this order, of which the
  first \<open>size\<close> exist; each reports its free memory as a gauge; the key store works,
  the second server becomes leader, signing succeeds.
\<close>

definition gauge :: "uint64 \<Rightarrow> MetricMap" where
  "gauge v = [(MetricFreeMemoryBytes,
               Some \<lparr>MType = GAUGE, Metrics = [\<lparr>GaugeValue = v, CounterValue = 0\<rparr>]\<rparr>)]"

definition cluster :: "nat \<Rightarrow> (NodeID \<Rightarrow> uint64) \<Rightarrow> bp_env" where
  "cluster sz free =
     \<lparr>GetNeighbors = (\<lambda>key count.
        (map (\<lambda>n. \<lparr>ID = n, PublicKey = ''pk-'' @ n\<rparr>)
           (take (nat count) (take sz [''a'', ''b'', ''c'', ''d''])), None)),
      GetMetrics = (\<lambda>nodeIDs. map (\<lambda>n. (n, gauge (free n))) (remdups nodeIDs)),
      GetLocalPublicKey = Inr ''bp-pub'',
      GetLocalPrivateKey = Inr ''bp-priv'',
      Intn = (\<lambda>n. if 1 < n then 1 else 0),
      Sign = (\<lambda>k p. Inr ''sig'')\<rparr>"

definition two_gb :: "NodeID \<Rightarrow> uint64" where
  "two_gb n = 2147483648"

definition a_is_low :: "NodeID \<Rightarrow> uint64" where
  "a_is_low n = (if n = ''a'' then 536870912 else 2147483648)"


definition request :: "int \<Rightarrow> ResourceMeta" where
  "request n = \<lparr>Node = n, Memory = 1073741824\<rparr>"

definition service :: DBService where
  "service = \<lparr>AllocationRounds = DefaultAllocationRounds\<rparr>"

text \<open>The peer set the allocation builds on a ring of the two healthy nodes a and b.\<close>

definition two_peers :: Peers where
  "two_peers = \<lparr>Term = 1, PubKey = ''bp-pub'',
     Servers = [Some \<lparr>Role = conf_Follower, ServerID = ''a'', ServerPubKey = ''pk-a''\<rparr>,
                Some \<lparr>Role = conf_Leader, ServerID = ''b'', ServerPubKey = ''pk-b''\<rparr>],
     Leader = Some \<lparr>Role = conf_Leader, ServerID = ''b'', ServerPubKey = ''pk-b''\<rparr>,
     Signature = Some ''sig''\<rparr>"

section \<open>DBMS: the registry of a worker (package worker)\<close>

datatype dbms_error =
    ErrAlreadyExists
  | ErrNotExists
  | ErrFile string
  | ErrMsgPack string
  | ErrDatabase string
  | ErrKMS string
  | ErrCallNode string
  | PanicDivideByZero

text \<open>\<^verbatim>\<open>wt.ServiceInstance\<close>, of which the registry reads the database id.\<close>

record ServiceInstance =
  DatabaseID :: DatabaseID

text \<open>A \<^verbatim>\<open>*Database\<close>: the instance built for an id under a data directory.\<close>

record Database =
  cfgDatabaseID :: DatabaseID
  DataDir :: string

text \<open>The file \<^verbatim>\<open>db.meta\<close> under the root directory, as \<^verbatim>\<open>readMeta\<close> finds it.\<close>

datatype meta_file = NoFile | Unreadable string | Corrupt string | MetaFile "DatabaseID list"

text \<open>Calls on the collaborators, in order.\<close>

datatype dbms_event =
    EvNewDatabase DatabaseID
  | EvShutdown DatabaseID
  | EvDestroy DatabaseID
  | EvRemoveAll string
  | EvWriteFile "DatabaseID list"

text \<open>
  The collaborators, answering by the calls made so far: the construction and the
  destruction of a database, the file system, the encoder, the key store, the list of
  block producers and the call to one of them. \<open>range_order\<close> is the order in which
  a \<^verbatim>\<open>range\<close> over a map with the given keys visits them, which Go leaves open.
\<close>

record dbms_env =
  NewDatabase :: "dbms_event list \<Rightarrow> Database \<Rightarrow> dbms_error option"
  DestroyDatabase :: "dbms_event list \<Rightarrow> DatabaseID \<Rightarrow> dbms_error option"
  RemoveAll :: "dbms_event list \<Rightarrow> string \<Rightarrow> dbms_error option"
  EncodeMsgPack :: "DatabaseID list \<Rightarrow> dbms_error option"
  WriteFile :: "dbms_event list \<Rightarrow> DatabaseID list \<Rightarrow> dbms_error option"
  range_order :: "DatabaseID list \<Rightarrow> DatabaseID list"
  GetLocalNonce :: "dbms_error + uint64"
  GetBPs :: "NodeID list"
  CallGetNodeDatabases :: "NodeID \<Rightarrow> dbms_error + ServiceInstance list"

text \<open>
  \<^verbatim>\<open>type DBMS struct\<close>: the root directory of the configuration, the registry
  \<^verbatim>\<open>dbMap\<close> (a \<^verbatim>\<open>sync.Map\<close>; here its entries, one per key), with the meta file
  on disk and the trace of calls.
\<close>

record DBMS =
  RootDir :: string
  dbMap :: "(DatabaseID \<times> Database) list"
  disk :: meta_file
  calls :: "dbms_event list"

definition NewDBMS :: "string \<Rightarrow> meta_file \<Rightarrow> DBMS" where
  "NewDBMS root file = \<lparr>RootDir = root, dbMap = [], disk = file, calls = []\<rparr>"

text \<open>\<^verbatim>\<open>readMeta\<close>: a missing file is an empty meta, as is a decoded nil map.\<close>

definition readMeta :: "DBMS \<Rightarrow> dbms_error + DatabaseID list" where
  "readMeta dbms =
     (case disk dbms of
        NoFile \<Rightarrow> Inr []
      | Unreadable msg \<Rightarrow> Inl (ErrFile msg)
      | Corrupt msg \<Rightarrow> Inl (ErrMsgPack msg)
      | MetaFile dbs \<Rightarrow> Inr dbs)"

text \<open>
  \<^verbatim>\<open>writeMeta\<close>: the keys of the registry, encoded and written over the file. A
  failed write is taken to leave the file as it was.
\<close>

definition writeMeta :: "dbms_env \<Rightarrow> DBMS \<Rightarrow> dbms_error option \<times> DBMS" where
  "writeMeta env dbms =
     (let dbs = range_order env (map fst (dbMap dbms))
      in case EncodeMsgPack env dbs of
           Some err \<Rightarrow> (Some err, dbms)
         | None \<Rightarrow>
             (case WriteFile env (calls dbms) dbs of
                Some err \<Rightarrow> (Some err, dbms\<lparr>calls := calls dbms @ [EvWriteFile dbs]\<rparr>)
              | None \<Rightarrow> (None, dbms\<lparr>disk := MetaFile dbs,
                                      calls := calls dbms @ [EvWriteFile dbs]\<rparr>)))"

definition getMeta :: "DBMS \<Rightarrow> DatabaseID \<Rightarrow> Database option" where
  "getMeta dbms dbID = map_of (dbMap dbms) dbID"

text \<open>\<^verbatim>\<open>addMeta\<close>: \<^verbatim>\<open>LoadOrStore\<close>, then the meta file.\<close>

definition addMeta :: "dbms_env \<Rightarrow> DBMS \<Rightarrow> DatabaseID \<Rightarrow> Database \<Rightarrow> dbms_error option \<times> DBMS" where
  "addMeta env dbms dbID database =
     (case map_of (dbMap dbms) dbID of
        Some _ \<Rightarrow> (Some ErrAlreadyExists, dbms)
      | None \<Rightarrow> writeMeta env (dbms\<lparr>dbMap := dbMap dbms @ [(dbID, database)]\<rparr>))"

definition removeMeta :: "dbms_env \<Rightarrow> DBMS \<Rightarrow> DatabaseID \<Rightarrow> dbms_error option \<times> DBMS" where
  "removeMeta env dbms dbID =
     writeMeta env (dbms\<lparr>dbMap := filter (\<lambda>entry. fst entry \<noteq> dbID) (dbMap dbms)\<rparr>)"

definition join_path :: "string \<Rightarrow> string \<Rightarrow> string" where
  "join_path dir name = dir @ ''/'' @ name"

text \<open>
  \<^verbatim>\<open>Create\<close>. The deferred function is registered after the cleanup of the data
  directory; on a later error it shuts the database down when one was built and calls
  \<^verbatim>\<open>removeMeta\<close>, whose own result is dropped. \<^verbatim>\<open>NewDatabase\<close> is taken to
  return no database together with an error.
\<close>

definition Create :: "dbms_env \<Rightarrow> DBMS \<Rightarrow> ServiceInstance \<Rightarrow> bool \<Rightarrow> dbms_error option \<times> DBMS" where
  "Create env dbms instance cleanup =
     (case getMeta dbms (DatabaseID instance) of
        Some _ \<Rightarrow> (Some ErrAlreadyExists, dbms)
      | None \<Rightarrow>
          (let rootDir = join_path (RootDir dbms) (DatabaseID instance);
               removed = (if cleanup then RemoveAll env (calls dbms) rootDir else None);
               dbms1 = (if cleanup then dbms\<lparr>calls := calls dbms @ [EvRemoveAll rootDir]\<rparr>
                        else dbms)
           in case removed of
                Some err \<Rightarrow> (Some err, dbms1)
              | None \<Rightarrow>
                  (let database = \<lparr>cfgDatabaseID = DatabaseID instance, DataDir = rootDir\<rparr>;
                       dbms2 = dbms1\<lparr>calls := calls dbms1 @ [EvNewDatabase (DatabaseID instance)]\<rparr>
                   in case NewDatabase env (calls dbms1) database of
                        Some err \<Rightarrow> (Some err, snd (removeMeta env dbms2 (DatabaseID instance)))
                      | None \<Rightarrow>
                          (case addMeta env dbms2 (DatabaseID instance) database of
                             (Some err, dbms3) \<Rightarrow>
                               (Some err,
                                snd (removeMeta env
                                       (dbms3\<lparr>calls := calls dbms3 @ [EvShutdown (DatabaseID instance)]\<rparr>)
                                       (DatabaseID instance)))
                           | (None, dbms3) \<Rightarrow> (None, dbms3)))))"

text \<open>\<^verbatim>\<open>Drop\<close>.\<close>

definition Drop :: "dbms_env \<Rightarrow> DBMS \<Rightarrow> DatabaseID \<Rightarrow> dbms_error option \<times> DBMS" where
  "Drop env dbms dbID =
     (case getMeta dbms dbID of
        None \<Rightarrow> (Some ErrNotExists, dbms)
      | Some database \<Rightarrow>
          (case DestroyDatabase env (calls dbms) dbID of
             Some err \<Rightarrow> (Some err, dbms\<lparr>calls := calls dbms @ [EvDestroy dbID]\<rparr>)
           | None \<Rightarrow> removeMeta env (dbms\<lparr>calls := calls dbms @ [EvDestroy dbID]\<rparr>) dbID))"

text \<open>The two loops of \<^verbatim>\<open>initDatabases\<close>; each returns at the first error.\<close>

fun create_all :: "dbms_env \<Rightarrow> DBMS \<Rightarrow> ServiceInstance list \<Rightarrow> dbms_error option \<times> DBMS" where
  "create_all env dbms [] = (None, dbms)"
| "create_all env dbms (instanceConf # rest) =
     (case Create env dbms instanceConf False of
        (Some err, dbms') \<Rightarrow> (Some err, dbms')
      | (None, dbms') \<Rightarrow> create_all env dbms' rest)"

fun drop_all :: "dbms_env \<Rightarrow> DBMS \<Rightarrow> DatabaseID list \<Rightarrow> dbms_error option \<times> DBMS" where
  "drop_all env dbms [] = (None, dbms)"
| "drop_all env dbms (dbID # rest) =
     (case Drop env dbms dbID of
        (Some err, dbms') \<Rightarrow> (Some err, dbms')
      | (None, dbms') \<Rightarrow> drop_all env dbms' rest)"

text \<open>
  \<^verbatim>\<open>initDatabases\<close>: \<open>meta\<close> is the key list of \<^verbatim>\<open>meta.DBS\<close>. The ids to drop
  are collected by a range over \<^verbatim>\<open>meta.DBS\<close> and dropped by a range over the
  collected map.
\<close>

definition initDatabases ::
  "dbms_env \<Rightarrow> DBMS \<Rightarrow> DatabaseID list \<Rightarrow> ServiceInstance list \<Rightarrow> dbms_error option \<times> DBMS" where
  "initDatabases env dbms meta conf =
     (case create_all env dbms conf of
        (Some err, dbms') \<Rightarrow> (Some err, dbms')
      | (None, dbms') \<Rightarrow>
          (let currentInstance = map DatabaseID conf;
               toDropInstance = filter (\<lambda>dbID. dbID \<notin> set currentInstance) (range_order env meta)
           in drop_all env dbms' (range_order env toDropInstance)))"

text \<open>
  \<^verbatim>\<open>getMappedInstances\<close>: the block producer is picked by the nonce modulo the
  number of block producers, which panics when there is none.
\<close>

definition getMappedInstances :: "dbms_env \<Rightarrow> dbms_error + ServiceInstance list" where
  "getMappedInstances env =
     (case GetLocalNonce env of
        Inl err \<Rightarrow> Inl err
      | Inr nonceD \<Rightarrow>
          if GetBPs env = [] then Inl PanicDivideByZero
          else CallGetNodeDatabases env (GetBPs env ! (unat nonceD mod length (GetBPs env))))"

definition Init :: "dbms_env \<Rightarrow> DBMS \<Rightarrow> dbms_error option \<times> DBMS" where
  "Init env dbms =
     (case readMeta dbms of
        Inl err \<Rightarrow> (Some err, dbms)
      | Inr localMeta \<Rightarrow>
          (case getMappedInstances env of
             Inl err \<Rightarrow> (Some err, dbms)
           | Inr dbMapping \<Rightarrow> initDatabases env dbms localMeta dbMapping))"

text \<open>The ids the registry holds, the ids the meta file lists, and the ids of a trace.\<close>

definition registry :: "DBMS \<Rightarrow> DatabaseID set" where
  "registry dbms = fst ` set (dbMap dbms)"

definition stored :: "DBMS \<Rightarrow> DatabaseID set" where
  "stored dbms = (case disk dbms of MetaFile dbs \<Rightarrow> set dbs | _ \<Rightarrow> {})"

fun created :: "dbms_event list \<Rightarrow> DatabaseID list" where
  "created [] = []"
| "created (EvNewDatabase dbID # evs) = dbID # created evs"
| "created (ev # evs) = created evs"

fun destroyed :: "dbms_event list \<Rightarrow> DatabaseID list" where
  "destroyed [] = []"
| "destroyed (EvDestroy dbID # evs) = dbID # destroyed evs"
| "destroyed (ev # evs) = destroyed evs"

text \<open>Collaborators that never fail, with one block producer that reports \<open>conf\<close>.\<close>

definition ok_env :: "ServiceInstance list \<Rightarrow> dbms_env" where
  "ok_env conf =
     \<lparr>NewDatabase = (\<lambda>tr db. None), DestroyDatabase = (\<lambda>tr dbID. None),
      RemoveAll = (\<lambda>tr dir. None), EncodeMsgPack = (\<lambda>dbs. None),
      WriteFile = (\<lambda>tr dbs. None), range_order = (\<lambda>dbs. dbs),
      GetLocalNonce = Inr 5, GetBPs = [''bp0''],
      CallGetNodeDatabases = (\<lambda>bp. Inr conf)\<rparr>"

text \<open>
  A worker whose registry and meta file hold the database A, and the same worker after
  it was reconciled with a coordinator that reports B and C.
\<close>

definition hosting_A :: DBMS where
  "hosting_A = (NewDBMS ''/data'' (MetaFile [''A'']))
     \<lparr>dbMap := [(''A'', \<lparr>cfgDatabaseID = ''A'', DataDir = ''/data/A''\<rparr>)]\<rparr>"

definition reconciled :: DBMS where
  "reconciled =
     \<lparr>RootDir = ''/data'',
      dbMap = [(''B'', \<lparr>cfgDatabaseID = ''B'', DataDir = ''/data/B''\<rparr>),
               (''C'', \<lparr>cfgDatabaseID = ''C'', DataDir = ''/data/C''\<rparr>)],
      disk = MetaFile [''B'', ''C''],
      calls = [EvNewDatabase ''B'', EvWriteFile [''A'', ''B''],
               EvNewDatabase ''C'', EvWriteFile [''A'', ''B'', ''C''],
               EvDestroy ''A'', EvWriteFile [''B'', ''C'']]\<rparr>"

section \<open>The private key store (package kms)\<close>


text \<open>
  The three errors of the package, and the errors of the file system, of the base58
  decoder and of the cipher, which the loader hands on as they are.
\<close>

datatype kms_error =
    ErrNotKeyFile
  | ErrHashNotMatch
  | ErrInvalidBase58Version
  | ErrReadFile string
  | ErrWriteFile string
  | Base58ErrChecksum
  | ErrCipher string












section \<open>Properties of the participant\<close>

lemma equalTxID_iff: "equalTxID x y \<longleftrightarrow> x = y"
  by (auto simp: equalTxID_def)

lemma prepared_T_simp:
  "prepared_T = \<lparr>dsn = '':memory:'', db = [BeginTx False], tx = Some 0,
                  tx_id = \<lparr>ConnectionID = 1, SeqNo = 2, Timestamp = 3\<rparr>,
                  queries = [''Q1'', ''BadSQL'', ''Q3'']\<rparr>"
  by (simp add: prepared_T_def Prepare_def New_def picky_engine_def mkLog_def txid_of_def)

lemma prepared_ok_simp:
  "prepared_ok = \<lparr>dsn = '':memory:'', db = [BeginTx False], tx = Some 0,
                   tx_id = \<lparr>ConnectionID = 1, SeqNo = 2, Timestamp = 3\<rparr>,
                   queries = [''Q1'', ''Q2'']\<rparr>"
  by (simp add: prepared_ok_def Prepare_def New_def picky_engine_def mkLog_def txid_of_def)

text \<open>
  C3. With a transaction active under TxID t1 and buffer Q, a Prepare carrying TxID t2 and
  statements Q2 succeeds and replaces the buffer by Q2 when t2 = t1 (handle and TxID stay
  as they are), and fails with the inconsistent-state error, changing nothing, when t2
  differs from t1.
\<close>

theorem Prepare_active:
  "tx s = Some h \<Longrightarrow>
     (txid_of el = tx_id s \<longrightarrow>
        Prepare e s (ExecLogBatch el) = (None, s\<lparr>queries := Queries el\<rparr>)) \<and>
     (txid_of el \<noteq> tx_id s \<longrightarrow>
        Prepare e s (ExecLogBatch el) = (Some (inconsistent s), s))"
  by (auto simp: Prepare_def equalTxID_iff)

theorem Prepare_active_witness:
  "tx prepared_T = Some 0 \<and>
   Prepare ok_engine prepared_T (ExecLogBatch (mkLog 1 2 3 [''Q2''])) =
     (None, prepared_T\<lparr>queries := [''Q2'']\<rparr>) \<and>
   Prepare ok_engine prepared_T (ExecLogBatch (mkLog 7 2 3 [''Q2''])) =
     (Some (ErrInconsistentState 1 2 3), prepared_T)"
  using Prepare_active [of prepared_T 0 "mkLog 1 2 3 [''Q2'']" ok_engine]
        Prepare_active [of prepared_T 0 "mkLog 7 2 3 [''Q2'']" ok_engine]
  by (simp add: prepared_T_simp mkLog_def txid_of_def inconsistent_def)

subsection \<open>The statement loop of Commit\<close>


lemma exec_queries_all:
  "exec_queries e tr qs = (None, tr') \<Longrightarrow> tr' = tr @ map ExecContext qs"
proof (induction qs arbitrary: tr)
  case Nil
  then show ?case by simp
next
  case (Cons q qs)
  from Cons.prems have "exec_queries e (tr @ [ExecContext q]) qs = (None, tr')"
    by (simp split: sum.splits)
  from Cons.IH [OF this] show ?case by simp
qed

lemma exec_queries_commit_res [simp]:
  "exec_queries (e\<lparr>commit_res := c\<rparr>) tr qs = exec_queries e tr qs"
  by (induction qs arbitrary: tr) (auto split: sum.splits)



text \<open>
  C9. When every buffered statement executes, Commit returns nil and leaves the
  participant idle whatever the engine answers to the final COMMIT: the answer is only
  recorded in the trace, never returned, so a failed COMMIT looks like a successful one.
\<close>

theorem Commit_discards_commit_error:
  "tx s = Some h \<Longrightarrow> txid_of el = tx_id s \<Longrightarrow>
   fst (exec_queries e (db s) (queries s)) = None \<Longrightarrow>
   Commit (e\<lparr>commit_res := c\<rparr>) s (ExecLogBatch el) =
     (None, s\<lparr>db := db s @ map ExecContext (queries s) @
                        [TxCommit (c (db s @ map ExecContext (queries s)))],
               tx := None, queries := []\<rparr>)"
proof -
  assume a: "tx s = Some h" "txid_of el = tx_id s"
    and n: "fst (exec_queries e (db s) (queries s)) = None"
  obtain tr where tr: "exec_queries e (db s) (queries s) = (None, tr)"
    using n by (cases "exec_queries e (db s) (queries s)") auto
  then have "tr = db s @ map ExecContext (queries s)"
    by (rule exec_queries_all)
  with a tr show ?thesis
    by (simp add: Commit_def equalTxID_iff)
qed

theorem Commit_discards_commit_error_witness:
  "commit_res picky_engine [BeginTx False, ExecContext ''Q1'', ExecContext ''Q2''] =
     Some (ErrSQL ''disk I/O error'') \<and>
   Commit picky_engine prepared_ok (ExecLogBatch (mkLog 1 2 3 [])) =
     (None, prepared_ok\<lparr>db := [BeginTx False, ExecContext ''Q1'', ExecContext ''Q2'',
                                  TxCommit (Some (ErrSQL ''disk I/O error''))],
                         tx := None, queries := []\<rparr>)"
  using Commit_discards_commit_error [of prepared_ok 0 "mkLog 1 2 3 []" picky_engine
          "\<lambda>tr. Some (ErrSQL ''disk I/O error'')"]
  by (simp add: prepared_ok_simp mkLog_def txid_of_def picky_engine_def)

text \<open>
  C10. Query on an empty statement list returns no columns, no types, no rows and no
  error, Exec on an empty list returns the count 0 and no error, and neither makes a
  call on the engine: the storage, with its trace of calls, is returned as it was.
\<close>

theorem Query_Exec_empty:
  "Query e s [] = (([], [], [], None), s) \<and> Exec e s [] = ((0, None), s)"
  by (simp add: Query_def Exec_def)

lemma committed_T_simp:
  "committed_T = \<lparr>dsn = '':memory:'',
                   db = [BeginTx False, ExecContext ''Q1'', ExecContext ''Q2'',
                         TxCommit (Some (ErrSQL ''disk I/O error''))],
                   tx = None,
                   tx_id = \<lparr>ConnectionID = 1, SeqNo = 2, Timestamp = 3\<rparr>,
                   queries = []\<rparr>"
  by (simp add: committed_T_def prepared_ok_simp Commit_def equalTxID_iff mkLog_def
      txid_of_def picky_engine_def)

lemma Commit_ends:
  assumes "tx s = Some h" and "txid_of el = tx_id s"
  shows "tx (snd (Commit e s (ExecLogBatch el))) = None \<and>
         queries (snd (Commit e s (ExecLogBatch el))) = [] \<and>
         tx_id (snd (Commit e s (ExecLogBatch el))) = tx_id s"
proof (cases "exec_queries e (db s) (queries s)")
  case (Pair r tr)
  with assms show ?thesis
    by (cases r) (simp_all add: Commit_def equalTxID_iff)
qed

lemma Rollback_ends:
  assumes "tx s = Some h" and "txid_of el = tx_id s"
  shows "Rollback s (ExecLogBatch el) =
           (None, s\<lparr>db := db s @ [TxRollback], tx := None, queries := []\<rparr>)"
  using assms by (simp add: Rollback_def equalTxID_iff)

lemma Rollback_idle:
  assumes "tx s = None"
  shows "Rollback s (ExecLogBatch el) =
           (if txid_of el = tx_id s then (None, s) else (Some (inconsistent s), s))"
  using assms by (simp add: Rollback_def equalTxID_iff eq_commute)

text \<open>
  C5, as the specification states it, fails: Commit does not clear the TxID. After
  transaction (1, 2, 3) was prepared and committed, the field still holds (1, 2, 3), not
  the zero TxID of a fresh participant, and a later Rollback carrying (1, 2, 3) is
  accepted as matching.
\<close>

theorem TxID_cleared_counterexample:
  "tx committed_T = None \<and>
   tx_id committed_T = \<lparr>ConnectionID = 1, SeqNo = 2, Timestamp = 3\<rparr> \<and>
   tx_id committed_T \<noteq> tx_id (New '':memory:'') \<and>
   Rollback committed_T (ExecLogBatch (mkLog 1 2 3 [])) = (None, committed_T)"
  by (simp add: committed_T_simp New_def Rollback_def equalTxID_def mkLog_def txid_of_def)

text \<open>
  C5, amended. A successful Prepare on an idle participant sets the transaction handle
  and records the batch's TxID. The Commit or Rollback that ends that transaction clears
  the handle and the query buffer and leaves the recorded TxID in place. Afterwards a
  Rollback is accepted, as a no-op, exactly when it carries that last TxID, and is
  refused with the inconsistent-state error for every other TxID; a Prepare does not
  compare TxIDs at all: it opens a new transaction under whatever TxID it carries.
\<close>

theorem TxID_kept_after_end:
  assumes "tx s0 = None" and "Prepare e s0 (ExecLogBatch el) = (None, s1)"
    and "s2 = snd (Commit e s1 (ExecLogBatch el)) \<or> s2 = snd (Rollback s1 (ExecLogBatch el))"
  shows "tx s1 \<noteq> None \<and> tx_id s1 = txid_of el \<and>
         tx s2 = None \<and> queries s2 = [] \<and> tx_id s2 = txid_of el \<and>
         Rollback s2 (ExecLogBatch el') =
           (if txid_of el' = txid_of el then (None, s2) else (Some (inconsistent s2), s2)) \<and>
         (\<forall>h. begin_res e (db s2) False = Inr h \<longrightarrow>
              Prepare e s2 (ExecLogBatch el') =
                (None, s2\<lparr>db := db s2 @ [BeginTx False], tx := Some h,
                          tx_id := txid_of el', queries := Queries el'\<rparr>))"
proof -
  from assms(1,2) obtain h where s1: "tx s1 = Some h" "tx_id s1 = txid_of el"
    by (auto simp: Prepare_def split: sum.splits)
  have e: "txid_of el = tx_id s1" using s1 by simp
  have s2: "tx s2 = None \<and> queries s2 = [] \<and> tx_id s2 = txid_of el"
    using assms(3)
  proof
    assume "s2 = snd (Commit e s1 (ExecLogBatch el))"
    then show ?thesis using Commit_ends [OF s1(1) e, of e] s1(2) by simp
  next
    assume "s2 = snd (Rollback s1 (ExecLogBatch el))"
    then show ?thesis using Rollback_ends [OF s1(1) e] s1(2) by simp
  qed
  then have idle: "tx s2 = None" and id2: "tx_id s2 = txid_of el" by simp_all
  have r: "Rollback s2 (ExecLogBatch el') =
           (if txid_of el' = txid_of el then (None, s2) else (Some (inconsistent s2), s2))"
    using Rollback_idle [OF idle, of el'] id2 by simp
  have p: "\<forall>h. begin_res e (db s2) False = Inr h \<longrightarrow>
              Prepare e s2 (ExecLogBatch el') =
                (None, s2\<lparr>db := db s2 @ [BeginTx False], tx := Some h,
                          tx_id := txid_of el', queries := Queries el'\<rparr>)"
    using idle by (simp add: Prepare_def)
  from s1 s2 r p show ?thesis by simp
qed

theorem TxID_kept_after_end_witness:
  "tx (New '':memory:'') = None \<and>
   Prepare picky_engine (New '':memory:'') (ExecLogBatch (mkLog 1 2 3 [''Q1'', ''Q2''])) =
     (None, prepared_ok) \<and>
   tx_id committed_T = \<lparr>ConnectionID = 1, SeqNo = 2, Timestamp = 3\<rparr> \<and>
   Rollback committed_T (ExecLogBatch (mkLog 1 2 3 [])) = (None, committed_T) \<and>
   Rollback committed_T (ExecLogBatch (mkLog 0 0 0 [])) =
     (Some (ErrInconsistentState 1 2 3), committed_T)"
proof -
  have a: "tx (New '':memory:'') = None" by (simp add: New_def)
  have b: "Prepare picky_engine (New '':memory:'') (ExecLogBatch (mkLog 1 2 3 [''Q1'', ''Q2''])) =
     (None, prepared_ok)"
    by (simp add: prepared_ok_simp Prepare_def New_def picky_engine_def mkLog_def txid_of_def)
  have c: "committed_T = snd (Commit picky_engine prepared_ok
              (ExecLogBatch (mkLog 1 2 3 [''Q1'', ''Q2''])))"
    by (simp add: committed_T_simp prepared_ok_simp Commit_def equalTxID_iff mkLog_def
        txid_of_def picky_engine_def)
  from c have d: "committed_T = snd (Commit picky_engine prepared_ok
              (ExecLogBatch (mkLog 1 2 3 [''Q1'', ''Q2'']))) \<or>
        committed_T = snd (Rollback prepared_ok (ExecLogBatch (mkLog 1 2 3 [''Q1'', ''Q2''])))"
    by (rule disjI1)
  show ?thesis
    using a b TxID_kept_after_end [OF a b d, of "mkLog 1 2 3 []"]
      TxID_kept_after_end [OF a b d, of "mkLog 0 0 0 []"]
    by (simp add: mkLog_def txid_of_def inconsistent_def)
qed

section \<open>Properties of the coordinator\<close>

lemma batchSendSingleSvcReq_first_arrival:
  "fst (batchSendSingleSvcReq callNode arrival req nodes) =
     (case arrival nodes of [] \<Rightarrow> None | n # _ \<Rightarrow> callNode n req)"
  by (simp add: batchSendSingleSvcReq_def split: list.splits)

text \<open>
  C1 fails on the code. Create is sent to the nodes n1 and n2, replies arrive in the order
  the goroutines were started, n1 accepts and n2 refuses. The first non-nil error among
  the replies is the one of n2, yet the call returns nil, having read only the first
  reply from the channel, and sends no compensating request: the two Create requests are
  all that was dispatched.
\<close>

theorem batchSendSvcReq_misses_error:
  "map (\<lambda>n. n2_rejects_create n (Some initSvcReq)) [''n1'', ''n2''] =
     [None, Some (ErrRPC ''create failed'')] \<and>
   first_error (map (\<lambda>n. n2_rejects_create n (Some initSvcReq)) [''n1'', ''n2'']) =
     Some (ErrRPC ''create failed'') \<and>
   batchSendSvcReq n2_rejects_create (\<lambda>ns. ns) (Some initSvcReq) (Some rollbackReq)
       [''n1'', ''n2''] =
     (None, [(''n1'', Some initSvcReq), (''n2'', Some initSvcReq)])"
  by (simp add: batchSendSvcReq_def batchSendSingleSvcReq_def n2_rejects_create_def
      initSvcReq_def rollbackReq_def)

subsection \<open>The loops of the allocation\<close>

lemma check_metrics_Inr:
  "check_metrics mem ms al ex = Inr (al', ex') \<Longrightarrow>
     al' = al @ map fst (filter (\<lambda>r. healthy mem (snd r)) ms) \<and>
     ex' = ex @ map fst (filter (\<lambda>r. \<not> healthy mem (snd r)) ms)"
proof (induction ms arbitrary: al ex)
  case Nil
  then show ?case by simp
next
  case (Cons r ms)
  obtain n m where r: "r = (n, m)" by (cases r)
  show ?case
  proof (cases "getMetric m MetricFreeMemoryBytes")
    case (Inl err)
    with Cons.prems r have "check_metrics mem ms al (ex @ [n]) = Inr (al', ex')"
      by (simp split: if_splits)
    from Cons.IH [OF this] Inl r show ?thesis by (simp add: healthy_def)
  next
    case (Inr v)
    show ?thesis
    proof (cases "mem < v")
      case True
      with Cons.prems r Inr have "check_metrics mem ms (al @ [n]) ex = Inr (al', ex')" by simp
      from Cons.IH [OF this] Inr r True show ?thesis by (simp add: healthy_def)
    next
      case False
      with Cons.prems r Inr have "check_metrics mem ms al (ex @ [n]) = Inr (al', ex')" by simp
      from Cons.IH [OF this] Inr r False show ?thesis by (simp add: healthy_def)
    qed
  qed
qed

lemma fill_servers_Inr:
  "fill_servers li idx nodes p = Inr p' \<Longrightarrow>
     (nodes \<noteq> [] \<longrightarrow> idx + length nodes \<le> length (Servers p)) \<and>
     length (Servers p') = length (Servers p) \<and>
     (\<forall>i < length (Servers p). Servers p' ! i =
        (if idx \<le> i \<and> i < idx + length nodes then Some (mk_server li i (nodes ! (i - idx)))
         else Servers p ! i)) \<and>
     Leader p' = (if idx \<le> li \<and> li < idx + length nodes
                  then Some (mk_server li li (nodes ! (li - idx))) else Leader p) \<and>
     Term p' = Term p \<and> PubKey p' = PubKey p \<and> Signature p' = Signature p"
proof (induction nodes arbitrary: idx p)
  case Nil
  then show ?case by auto
next
  case (Cons node rest)
  from Cons.prems have len: "idx < length (Servers p)"
    by (simp split: if_splits)
  define q where "q = (if idx = li
      then p\<lparr>Servers := (Servers p)[idx := Some (mk_server li idx node)],
              Leader := Some (mk_server li idx node)\<rparr>
      else p\<lparr>Servers := (Servers p)[idx := Some (mk_server li idx node)]\<rparr>)"
  have run: "fill_servers li (Suc idx) rest q = Inr p'"
    using Cons.prems len by (simp add: q_def mk_server_def split: if_splits)
  note ih = Cons.IH [OF run]
  have lq: "length (Servers q) = length (Servers p)" by (simp add: q_def)
  have a: "idx + length (node # rest) \<le> length (Servers p)"
    using ih len lq by (cases rest) auto
  have b: "length (Servers p') = length (Servers p)" using ih lq by simp
  have c: "\<forall>i < length (Servers p). Servers p' ! i =
        (if idx \<le> i \<and> i < idx + length (node # rest)
         then Some (mk_server li i ((node # rest) ! (i - idx))) else Servers p ! i)"
  proof (intro allI impI)
    fix i assume i: "i < length (Servers p)"
    have qi: "Servers q ! i = (if i = idx then Some (mk_server li idx node) else Servers p ! i)"
      using i by (simp add: q_def nth_list_update)
    from ih i lq have "Servers p' ! i =
        (if Suc idx \<le> i \<and> i < Suc idx + length rest
         then Some (mk_server li i (rest ! (i - Suc idx))) else Servers q ! i)"
      by simp
    with qi show "Servers p' ! i =
        (if idx \<le> i \<and> i < idx + length (node # rest)
         then Some (mk_server li i ((node # rest) ! (i - idx))) else Servers p ! i)"
      by (cases "i = idx") (auto simp: nth_Cons' Suc_diff_le)
  qed
  have d: "Leader p' = (if idx \<le> li \<and> li < idx + length (node # rest)
                  then Some (mk_server li li ((node # rest) ! (li - idx))) else Leader p)"
  proof -
    have ql: "Leader q = (if idx = li then Some (mk_server li idx node) else Leader p)"
      by (simp add: q_def)
    from ih have "Leader p' = (if Suc idx \<le> li \<and> li < Suc idx + length rest
                  then Some (mk_server li li (rest ! (li - Suc idx))) else Leader q)"
      by simp
    with ql show ?thesis
      by (cases "idx = li") (auto simp: nth_Cons' Suc_diff_le)
  qed
  have e: "Term p' = Term p \<and> PubKey p' = PubKey p \<and> Signature p' = Signature p"
    using ih by (simp add: q_def)
  from a b c d e show ?case by simp
qed


lemma buildPeers_Inr:
  assumes "buildPeers env term nodes allocated = Inr peers"
  shows "length nodes \<le> length allocated \<and> allocated \<noteq> [] \<and>
         length (Servers peers) = length allocated \<and>
         (\<forall>i < length allocated. Servers peers ! i =
            (if i < length nodes
             then Some (mk_server (Intn env (length allocated)) i (nodes ! i)) else None)) \<and>
         Leader peers = (if Intn env (length allocated) < length nodes
                         then Some (mk_server (Intn env (length allocated))
                                      (Intn env (length allocated))
                                      (nodes ! Intn env (length allocated)))
                         else None) \<and>
         Term peers = term"
proof -
  from assms obtain pubKey privKey p' sig where
    ne: "allocated \<noteq> []"
    and f: "fill_servers (Intn env (length allocated)) 0 nodes
              \<lparr>Term = term, PubKey = pubKey, Servers = replicate (length allocated) None,
               Leader = None, Signature = None\<rparr> = Inr p'"
    and p: "peers = p'\<lparr>Signature := Some sig\<rparr>"
    by (auto simp: buildPeers_def split: sum.splits if_splits)
  from fill_servers_Inr [OF f] ne p show ?thesis
    by (cases nodes) auto
qed


lemma alloc_loop_result:
  "alloc_loop env rm lt dbID k c ex = r \<Longrightarrow>
     r = Inl ErrDatabaseAllocation \<or> (\<exists>c' ex'. alloc_round env rm lt dbID c' ex' = Done r)"
proof (induction k arbitrary: c ex)
  case 0
  then show ?case by simp
next
  case (Suc k)
  show ?case
  proof (cases "alloc_round env rm lt dbID c ex")
    case (Retry c' ex')
    with Suc.prems have "alloc_loop env rm lt dbID k c' ex' = r" by simp
    from Suc.IH [OF this] show ?thesis .
  next
    case (Done r')
    with Suc.prems have "r' = r" by simp
    with Done show ?thesis by blast
  qed
qed

lemma alloc_round_Done_Inr:
  assumes "alloc_round env rm lt dbID c ex = Done (Inr peers)"
  shows "\<exists>allocated ex'.
           check_metrics (Memory rm)
             (GetMetrics env (suitable (fst (GetNeighbors env dbID c)) ex)) [] ex =
             Inr (allocated, ex') \<and>
           Node rm \<le> int (length allocated) \<and>
           buildPeers env (lt + 1) (fst (GetNeighbors env dbID c))
             (take (nat (Node rm)) allocated) = Inr peers"
  using assms
  by (auto simp: alloc_round_def Let_def split: if_splits sum.splits prod.splits)

text \<open>
  C2. Whenever the allocation returns a peer set (as every successful CreateDatabase
  requires), for a request of N replicas, and the metric collector answers with one
  record per node and only for nodes it was asked about, and \<^verbatim>\<open>rand.Intn\<close> stays
  below its bound: the peer set has exactly N servers, none of them nil; exactly one
  index holds a server of role leader, and \<^verbatim>\<open>peers.Leader\<close> is that server; the
  servers' identifiers are pairwise distinct; and every server is a ring neighbour whose
  metric record passed the memory check, that is, an allocated node.
\<close>

theorem allocateNodes_peers:
  assumes ok: "allocateNodes s env lastTerm dbID rm = Inr peers"
    and mc: "\<forall>ids. distinct (map fst (GetMetrics env ids)) \<and>
                   fst ` set (GetMetrics env ids) \<subseteq> set ids"
    and ic: "\<forall>n>0. Intn env n < n"
  shows "0 < Node rm \<and> length (Servers peers) = nat (Node rm) \<and>
    (\<exists>li < length (Servers peers). Leader peers = Servers peers ! li \<and>
       (\<forall>i < length (Servers peers).
          \<exists>srv. Servers peers ! i = Some srv \<and> (Role srv = conf_Leader \<longleftrightarrow> i = li))) \<and>
    distinct (map (map_option ServerID) (Servers peers)) \<and>
    (\<forall>srv. Some srv \<in> set (Servers peers) \<longrightarrow>
       (\<exists>curRange ids nodeMetric.
          ServerID srv \<in> ID ` set (fst (GetNeighbors env dbID curRange)) \<and>
          (ServerID srv, nodeMetric) \<in> set (GetMetrics env ids) \<and>
          healthy (Memory rm) nodeMetric))"
proof -
  define N where "N = nat (Node rm)"
  from ok have pos: "0 < Node rm"
    by (simp add: allocateNodes_def split: if_splits)
  from ok pos have "alloc_loop env rm lastTerm dbID (nat (AllocationRounds s mod 2 ^ 64))
                      (Node rm) [] = Inr peers"
    by (simp add: allocateNodes_def)
  from alloc_loop_result [OF this] obtain c ex where
    "alloc_round env rm lastTerm dbID c ex = Done (Inr peers)" by auto
  from alloc_round_Done_Inr [OF this] obtain allocated ex' where
    cm: "check_metrics (Memory rm)
           (GetMetrics env (suitable (fst (GetNeighbors env dbID c)) ex)) [] ex =
           Inr (allocated, ex')"
    and enough: "Node rm \<le> int (length allocated)"
    and bp: "buildPeers env (lastTerm + 1) (fst (GetNeighbors env dbID c))
               (take (nat (Node rm)) allocated) = Inr peers"
    by blast
  define nodes where "nodes = fst (GetNeighbors env dbID c)"
  define ids where "ids = suitable nodes ex"
  define ms where "ms = GetMetrics env ids"
  define A where "A = take N allocated"
  have al: "allocated = map fst (filter (\<lambda>r. healthy (Memory rm) (snd r)) ms)"
    using check_metrics_Inr [OF cm] by (simp add: ms_def ids_def nodes_def)
  have dms: "distinct (map fst ms)" and sms: "fst ` set ms \<subseteq> set ids"
    using mc by (simp_all add: ms_def)
  have dal: "distinct allocated"
    unfolding al using dms by (rule distinct_map_filter)
  have sal: "set allocated \<subseteq> ID ` set nodes"
  proof -
    have "set allocated \<subseteq> fst ` set ms" unfolding al by auto
    also have "\<dots> \<subseteq> set ids" by (rule sms)
    also have "\<dots> \<subseteq> ID ` set nodes" by (auto simp: ids_def suitable_def)
    finally show ?thesis .
  qed
  have lenA: "length A = N" using enough pos by (simp add: A_def N_def)
  have dA: "distinct A" using dal by (simp add: A_def)
  have sA: "set A \<subseteq> ID ` set nodes"
    using sal set_take_subset [of N allocated] by (auto simp: A_def)
  have Npos: "0 < N" using pos by (simp add: N_def)
  from bp have bp': "buildPeers env (lastTerm + 1) nodes A = Inr peers"
    by (simp add: nodes_def A_def N_def)
  note B = buildPeers_Inr [OF bp']
  have le: "length nodes \<le> N" using B lenA by simp
  have cA: "card (set A) = N" using dA lenA by (simp add: distinct_card)
  have "card (set A) \<le> card (ID ` set nodes)"
    using sA by (intro card_mono) auto
  also have "\<dots> = card (set (map ID nodes))" by simp
  also have "\<dots> \<le> length (map ID nodes)" by (rule card_length)
  finally have ge: "N \<le> length nodes" using cA by simp
  with le have ln: "length nodes = N" by simp
  have cn: "card (set (map ID nodes)) = length (map ID nodes)"
  proof -
    have "N \<le> card (ID ` set nodes)"
      using cA card_mono [of "ID ` set nodes" "set A"] sA by auto
    moreover have "card (set (map ID nodes)) \<le> length (map ID nodes)" by (rule card_length)
    ultimately show ?thesis using ln by simp
  qed
  then have dn: "distinct (map ID nodes)" by (rule card_distinct)
  have seq: "set A = ID ` set nodes"
  proof (rule card_subset_eq)
    show "finite (ID ` set nodes)" by simp
    show "set A \<subseteq> ID ` set nodes" by (rule sA)
    show "card (set A) = card (ID ` set nodes)" using cA cn ln by simp
  qed
  define li where "li = Intn env N"
  have li: "li < N" using ic Npos by (simp add: li_def)
  have ls: "length (Servers peers) = N" using B lenA by simp
  have srv: "\<forall>i < N. Servers peers ! i = Some (mk_server li i (nodes ! i))"
    using B lenA ln by (simp add: li_def)
  have ldr: "Leader peers = Some (mk_server li li (nodes ! li))"
    using B lenA ln li by (simp add: li_def)
  have one: "\<exists>li < length (Servers peers). Leader peers = Servers peers ! li \<and>
       (\<forall>i < length (Servers peers).
          \<exists>srv. Servers peers ! i = Some srv \<and> (Role srv = conf_Leader \<longleftrightarrow> i = li))"
  proof (intro exI [of _ li] conjI allI impI)
    show "li < length (Servers peers)" using li ls by simp
    show "Leader peers = Servers peers ! li" using ldr srv li by simp
  next
    fix i assume "i < length (Servers peers)"
    then have "Servers peers ! i = Some (mk_server li i (nodes ! i))" using srv ls by simp
    then show "\<exists>srv. Servers peers ! i = Some srv \<and> (Role srv = conf_Leader \<longleftrightarrow> i = li)"
      by (simp add: mk_server_def)
  qed
  have ids_eq: "map (map_option ServerID) (Servers peers) = map (\<lambda>n. Some (ID n)) nodes"
  proof (rule nth_equalityI)
    show "length (map (map_option ServerID) (Servers peers)) = length (map (\<lambda>n. Some (ID n)) nodes)"
      using ls ln by simp
  next
    fix i assume "i < length (map (map_option ServerID) (Servers peers))"
    then have "i < N" using ls by simp
    then show "map (map_option ServerID) (Servers peers) ! i = map (\<lambda>n. Some (ID n)) nodes ! i"
      using srv ls ln by (simp add: mk_server_def)
  qed
  have dist: "distinct (map (map_option ServerID) (Servers peers))"
  proof -
    have "inj_on Some (set (map ID nodes))" by (simp add: inj_on_def)
    with dn have "distinct (map Some (map ID nodes))" by (simp only: distinct_map)
    then have "distinct (map (\<lambda>n. Some (ID n)) nodes)" by (simp add: comp_def)
    with ids_eq show ?thesis by simp
  qed
  have alloc: "\<forall>srv. Some srv \<in> set (Servers peers) \<longrightarrow>
       (\<exists>curRange ids nodeMetric.
          ServerID srv \<in> ID ` set (fst (GetNeighbors env dbID curRange)) \<and>
          (ServerID srv, nodeMetric) \<in> set (GetMetrics env ids) \<and>
          healthy (Memory rm) nodeMetric)"
  proof (intro allI impI)
    fix srv assume "Some srv \<in> set (Servers peers)"
    then obtain i where i: "i < N" and "Servers peers ! i = Some srv"
      using ls by (auto simp: in_set_conv_nth)
    with srv have "srv = mk_server li i (nodes ! i)" by simp
    then have sid: "ServerID srv = ID (nodes ! i)" by (simp add: mk_server_def)
    have innodes: "ServerID srv \<in> ID ` set nodes" using sid i ln by auto
    with seq have "ServerID srv \<in> set A" by simp
    then have "ServerID srv \<in> set allocated"
      using set_take_subset [of N allocated] by (auto simp: A_def)
    then obtain nodeMetric where "(ServerID srv, nodeMetric) \<in> set ms"
      and "healthy (Memory rm) nodeMetric"
      unfolding al by auto
    with innodes show "\<exists>curRange ids nodeMetric.
          ServerID srv \<in> ID ` set (fst (GetNeighbors env dbID curRange)) \<and>
          (ServerID srv, nodeMetric) \<in> set (GetMetrics env ids) \<and>
          healthy (Memory rm) nodeMetric"
      unfolding ms_def nodes_def by blast
  qed
  from pos ls one dist alloc show ?thesis by (simp add: N_def)
qed


subsection \<open>The example cluster\<close>

lemma cluster_contract:
  "\<forall>ids. distinct (map fst (GetMetrics (cluster sz free) ids)) \<and>
         fst ` set (GetMetrics (cluster sz free) ids) \<subseteq> set ids"
  by (auto simp: cluster_def comp_def)

lemma cluster_Intn: "\<forall>n>0. Intn (cluster sz free) n < n"
  by (simp add: cluster_def)

lemma round_a: "alloc_round (cluster 2 two_gb) (request 2) 0 ''db'' 2 [] = Done (Inr two_peers)"
  by (simp add: alloc_round_def cluster_def two_gb_def request_def suitable_def gauge_def
      getMetric_def MetricFreeMemoryBytes_def buildPeers_def two_peers_def Let_def)

lemma alloc_loop_pos:
  "0 < k \<Longrightarrow> alloc_loop env rm lt dbID k c ex =
     (case alloc_round env rm lt dbID c ex of
        Done r \<Rightarrow> r
      | Retry c' ex' \<Rightarrow> alloc_loop env rm lt dbID (k - 1) c' ex')"
  by (cases k) (auto split: round_result.splits)

lemma alloc_two: "allocateNodes service (cluster 2 two_gb) 0 ''db'' (request 2) = Inr two_peers"
  using round_a
  by (simp add: allocateNodes_def request_def service_def DefaultAllocationRounds_def
      alloc_loop_pos)

theorem allocateNodes_peers_witness:
  "allocateNodes service (cluster 2 two_gb) 0 ''db'' (request 2) = Inr two_peers \<and>
   length (Servers two_peers) = 2 \<and>
   distinct (map (map_option ServerID) (Servers two_peers))"
proof -
  note t = allocateNodes_peers [OF alloc_two cluster_contract cluster_Intn]
  have a: "length (Servers two_peers) = nat (Node (request 2))" using t by blast
  have b: "distinct (map (map_option ServerID) (Servers two_peers))" using t by blast
  show ?thesis using alloc_two a b by (simp add: request_def)
qed

subsection \<open>Exclusion, widening and failure of the allocation\<close>










text \<open>
  A round that widened the range hands \<^verbatim>\<open>buildPeers\<close> more neighbours than
  allocated nodes, and the store into \<^verbatim>\<open>peers.Servers\<close> runs out of range: on a
  ring of four nodes with a unhealthy, a request for two replicas panics in round two.
\<close>

lemma round_wide_1:
  "alloc_round (cluster 4 a_is_low) (request 2) 0 ''db'' 2 [] = Retry 4 [''a'']"
  by (simp add: alloc_round_def cluster_def a_is_low_def request_def suitable_def gauge_def
      getMetric_def MetricFreeMemoryBytes_def Let_def)

lemma round_wide_2:
  "alloc_round (cluster 4 a_is_low) (request 2) 0 ''db'' 4 [''a''] =
     Done (Inl PanicIndexOutOfRange)"
  by (simp add: alloc_round_def cluster_def a_is_low_def request_def suitable_def gauge_def
      getMetric_def MetricFreeMemoryBytes_def Let_def buildPeers_def)

lemma allocateNodes_widened_round_panics:
  "allocateNodes service (cluster 4 a_is_low) 0 ''db'' (request 2) = Inl PanicIndexOutOfRange"
  using round_wide_1 round_wide_2
  by (simp add: allocateNodes_def request_def service_def DefaultAllocationRounds_def
      alloc_loop_pos)


section \<open>Properties of the worker registry\<close>

lemma writeMeta_ok:
  "writeMeta env d = (None, d') \<Longrightarrow>
     d' = d\<lparr>disk := MetaFile (range_order env (map fst (dbMap d))),
            calls := calls d @ [EvWriteFile (range_order env (map fst (dbMap d)))]\<rparr>"
  by (auto simp: writeMeta_def Let_def split: option.splits)

lemma Create_ok:
  assumes "Create env d i False = (None, d')"
  shows "DatabaseID i \<notin> registry d \<and>
         map fst (dbMap d') = map fst (dbMap d) @ [DatabaseID i] \<and>
         disk d' = MetaFile (range_order env (map fst (dbMap d'))) \<and>
         calls d' = calls d @ [EvNewDatabase (DatabaseID i),
                                EvWriteFile (range_order env (map fst (dbMap d')))]"
proof -
  from assms have g: "getMeta d (DatabaseID i) = None"
    by (auto simp: Create_def split: option.splits)
  then have notin: "DatabaseID i \<notin> registry d"
    by (simp add: getMeta_def registry_def map_of_eq_None_iff)
  define database where "database = \<lparr>cfgDatabaseID = DatabaseID i,
      DataDir = join_path (RootDir d) (DatabaseID i)\<rparr>"
  define d2 where "d2 = d\<lparr>calls := calls d @ [EvNewDatabase (DatabaseID i)]\<rparr>"
  from assms g have a: "addMeta env d2 (DatabaseID i) database = (None, d')"
    by (auto simp: Create_def Let_def d2_def database_def split: option.splits prod.splits)
  then have "writeMeta env (d2\<lparr>dbMap := dbMap d2 @ [(DatabaseID i, database)]\<rparr>) = (None, d')"
    by (auto simp: addMeta_def split: option.splits)
  from writeMeta_ok [OF this] notin show ?thesis
    by (simp add: d2_def)
qed

lemma Drop_ok:
  assumes "Drop env d x = (None, d')"
  shows "x \<in> registry d \<and>
         map fst (dbMap d') = filter (\<lambda>k. k \<noteq> x) (map fst (dbMap d)) \<and>
         disk d' = MetaFile (range_order env (map fst (dbMap d'))) \<and>
         calls d' = calls d @ [EvDestroy x, EvWriteFile (range_order env (map fst (dbMap d')))]"
proof -
  from assms obtain database where g: "getMeta d x = Some database"
    by (auto simp: Drop_def split: option.splits)
  then have isin: "x \<in> registry d"
    by (auto simp: getMeta_def registry_def dest: map_of_SomeD intro: rev_image_eqI)
  from assms g have "removeMeta env (d\<lparr>calls := calls d @ [EvDestroy x]\<rparr>) x = (None, d')"
    by (auto simp: Drop_def split: option.splits)
  then have "writeMeta env (d\<lparr>calls := calls d @ [EvDestroy x],
                dbMap := filter (\<lambda>entry. fst entry \<noteq> x) (dbMap d)\<rparr>) = (None, d')"
    by (simp add: removeMeta_def)
  from writeMeta_ok [OF this] isin show ?thesis
    by (simp add: filter_map comp_def)
qed

lemma created_append [simp]: "created (xs @ ys) = created xs @ created ys"
  by (induction xs rule: created.induct) simp_all

lemma destroyed_append [simp]: "destroyed (xs @ ys) = destroyed xs @ destroyed ys"
  by (induction xs rule: destroyed.induct) simp_all

lemma create_all_ok:
  "create_all env d C = (None, d') \<Longrightarrow>
     map fst (dbMap d') = map fst (dbMap d) @ map DatabaseID C \<and>
     DatabaseID ` set C \<inter> registry d = {} \<and>
     (C \<noteq> [] \<longrightarrow> disk d' = MetaFile (range_order env (map fst (dbMap d')))) \<and>
     (C = [] \<longrightarrow> d' = d) \<and>
     (\<exists>cs. calls d' = calls d @ cs \<and> created cs = map DatabaseID C \<and> destroyed cs = [])"
proof (induction C arbitrary: d)
  case Nil
  then show ?case by simp
next
  case (Cons i C)
  from Cons.prems obtain d1 where c: "Create env d i False = (None, d1)"
    and r: "create_all env d1 C = (None, d')"
    by (auto split: prod.splits option.splits)
  note c1 = Create_ok [OF c]
  note ih = Cons.IH [OF r]
  have reg1: "registry d1 = insert (DatabaseID i) (registry d)"
  proof -
    have "registry d1 = set (map fst (dbMap d1))" by (simp add: registry_def)
    also have "\<dots> = insert (DatabaseID i) (set (map fst (dbMap d)))" using c1 by simp
    finally show ?thesis by (simp add: registry_def)
  qed
  have k: "map fst (dbMap d') = map fst (dbMap d) @ map DatabaseID (i # C)"
    using ih c1 by simp
  have dj: "DatabaseID ` set (i # C) \<inter> registry d = {}"
    using ih c1 reg1 by auto
  have dk: "disk d' = MetaFile (range_order env (map fst (dbMap d')))"
  proof (cases "C = []")
    case True
    with ih have "d' = d1" by simp
    with c1 show ?thesis by simp
  next
    case False
    with ih show ?thesis by simp
  qed
  from ih obtain cs where cs: "calls d' = calls d1 @ cs" "created cs = map DatabaseID C"
    "destroyed cs = []" by blast
  have "calls d' = calls d @ ([EvNewDatabase (DatabaseID i),
            EvWriteFile (range_order env (map fst (dbMap d1)))] @ cs)"
    using cs(1) c1 by simp
  moreover have "created ([EvNewDatabase (DatabaseID i),
            EvWriteFile (range_order env (map fst (dbMap d1)))] @ cs) = map DatabaseID (i # C)"
    using cs(2) by simp
  moreover have "destroyed ([EvNewDatabase (DatabaseID i),
            EvWriteFile (range_order env (map fst (dbMap d1)))] @ cs) = []"
    using cs(3) by simp
  ultimately have ex: "\<exists>cs. calls d' = calls d @ cs \<and> created cs = map DatabaseID (i # C) \<and>
      destroyed cs = []" by blast
  from k dj dk ex show ?case by simp
qed

lemma drop_all_ok:
  "drop_all env d L = (None, d') \<Longrightarrow>
     map fst (dbMap d') = filter (\<lambda>k. k \<notin> set L) (map fst (dbMap d)) \<and>
     set L \<subseteq> registry d \<and>
     (L \<noteq> [] \<longrightarrow> disk d' = MetaFile (range_order env (map fst (dbMap d')))) \<and>
     (L = [] \<longrightarrow> d' = d) \<and>
     (\<exists>ds. calls d' = calls d @ ds \<and> created ds = [] \<and> destroyed ds = L)"
proof (induction L arbitrary: d)
  case Nil
  then show ?case by simp
next
  case (Cons x L)
  from Cons.prems obtain d1 where c: "Drop env d x = (None, d1)"
    and r: "drop_all env d1 L = (None, d')"
    by (auto split: prod.splits option.splits)
  note c1 = Drop_ok [OF c]
  note ih = Cons.IH [OF r]
  have reg1: "registry d1 = registry d - {x}"
  proof -
    have "registry d1 = set (map fst (dbMap d1))" by (simp add: registry_def)
    also have "\<dots> = set (map fst (dbMap d)) - {x}" using c1 by auto
    finally show ?thesis by (simp add: registry_def)
  qed
  have k: "map fst (dbMap d') = filter (\<lambda>k. k \<notin> set (x # L)) (map fst (dbMap d))"
    using ih c1 by (simp add: conj_commute)
  have sub: "set (x # L) \<subseteq> registry d"
    using ih c1 reg1 by auto
  have dk: "disk d' = MetaFile (range_order env (map fst (dbMap d')))"
  proof (cases "L = []")
    case True
    with ih have "d' = d1" by simp
    with c1 show ?thesis by simp
  next
    case False
    with ih show ?thesis by simp
  qed
  from ih obtain ds where ds: "calls d' = calls d1 @ ds" "created ds = []"
    "destroyed ds = L" by blast
  have "calls d' = calls d @ ([EvDestroy x,
            EvWriteFile (range_order env (map fst (dbMap d1)))] @ ds)"
    using ds(1) c1 by simp
  moreover have "created ([EvDestroy x,
            EvWriteFile (range_order env (map fst (dbMap d1)))] @ ds) = []"
    using ds(2) by simp
  moreover have "destroyed ([EvDestroy x,
            EvWriteFile (range_order env (map fst (dbMap d1)))] @ ds) = x # L"
    using ds(3) by simp
  ultimately have ex: "\<exists>ds. calls d' = calls d @ ds \<and> created ds = [] \<and>
      destroyed ds = x # L" by blast
  from k sub dk ex show ?case by simp
qed


text \<open>
  C7. Let Init run with the meta file listing M and the coordinator reporting C, on a
  registry that holds nothing the meta file does not list (as the empty registry of a new
  DBMS does), and let it return without error, so that every Create and every Drop
  succeeded. Then the calls that construct a database all come before the calls that
  destroy one: first one construction per instance of C, in the order of C, then one
  destruction per id of M outside C. Afterwards the registry holds exactly the ids of C,
  and the meta file lists exactly the ids of the registry.
\<close>

theorem Init_reconciles:
  assumes ok: "Init env d = (None, d')"
    and M: "readMeta d = Inr M" and C: "getMappedInstances env = Inr C"
    and reg: "registry d \<subseteq> set M"
    and ro: "\<forall>dbs. set (range_order env dbs) = set dbs"
  shows "registry d' = DatabaseID ` set C \<and> stored d' = registry d' \<and>
         (\<exists>cs ds. calls d' = calls d @ cs @ ds \<and>
                  created cs = map DatabaseID C \<and> destroyed cs = [] \<and>
                  created ds = [] \<and> set (destroyed ds) = set M - DatabaseID ` set C)"
proof -
  define L where "L = range_order env
      (filter (\<lambda>dbID. dbID \<notin> set (map DatabaseID C)) (range_order env M))"
  have setL: "set L = set M - DatabaseID ` set C"
    using ro by (auto simp: L_def)
  from ok M C have i: "initDatabases env d M C = (None, d')"
    by (simp add: Init_def)
  then obtain d1 where c: "create_all env d C = (None, d1)"
    and dr: "drop_all env d1 L = (None, d')"
    by (auto simp: initDatabases_def Let_def L_def split: prod.splits option.splits)
  note c1 = create_all_ok [OF c]
  note d1 = drop_all_ok [OF dr]
  have reg1: "registry d1 = registry d \<union> DatabaseID ` set C"
  proof -
    have "registry d1 = set (map fst (dbMap d1))" by (simp add: registry_def)
    also have "\<dots> = set (map fst (dbMap d)) \<union> DatabaseID ` set C" using c1 by simp
    finally show ?thesis by (simp add: registry_def)
  qed
  have reg2: "registry d' = registry d1 - set L"
  proof -
    have "registry d' = set (map fst (dbMap d'))" by (simp add: registry_def)
    also have "\<dots> = set (map fst (dbMap d1)) - set L" using d1 by auto
    finally show ?thesis by (simp add: registry_def)
  qed
  have "set L \<subseteq> registry d1" using d1 by simp
  with reg1 setL have "set M - DatabaseID ` set C \<subseteq> registry d" by auto
  moreover have "registry d \<inter> DatabaseID ` set C = {}" using c1 by auto
  ultimately have regd: "registry d = set M - DatabaseID ` set C" using reg by auto
  have r: "registry d' = DatabaseID ` set C"
    using reg2 reg1 regd setL by auto
  have st: "stored d' = registry d'"
  proof (cases "L = []")
    case False
    with d1 have "disk d' = MetaFile (range_order env (map fst (dbMap d')))" by simp
    then show ?thesis using ro by (simp add: stored_def registry_def)
  next
    case True
    with d1 have e: "d' = d1" by simp
    show ?thesis
    proof (cases "C = []")
      case False
      with c1 e have "disk d' = MetaFile (range_order env (map fst (dbMap d')))" by simp
      then show ?thesis using ro by (simp add: stored_def registry_def)
    next
      case Cnil: True
      with c1 e have "d' = d" by simp
      moreover from True setL Cnil have "set M = {}" by simp
      moreover from this M have "stored d = {}"
        by (auto simp: readMeta_def stored_def split: meta_file.splits)
      ultimately show ?thesis using reg by simp
    qed
  qed
  from c1 obtain cs where cs: "calls d1 = calls d @ cs" "created cs = map DatabaseID C"
    "destroyed cs = []" by blast
  from d1 obtain ds where ds: "calls d' = calls d1 @ ds" "created ds = []"
    "destroyed ds = L" by blast
  have "calls d' = calls d @ cs @ ds" using cs(1) ds(1) by simp
  with cs(2,3) ds(2,3) setL
  have tr: "\<exists>cs ds. calls d' = calls d @ cs @ ds \<and>
                  created cs = map DatabaseID C \<and> destroyed cs = [] \<and>
                  created ds = [] \<and> set (destroyed ds) = set M - DatabaseID ` set C"
    by blast
  from r st tr show ?thesis by simp
qed

lemma Init_example:
  "Init (ok_env [\<lparr>DatabaseID = ''B''\<rparr>, \<lparr>DatabaseID = ''C''\<rparr>]) hosting_A =
     (None, reconciled)"
  by (simp add: Init_def readMeta_def getMappedInstances_def initDatabases_def ok_env_def
      hosting_A_def reconciled_def NewDBMS_def Create_def Drop_def getMeta_def addMeta_def
      removeMeta_def writeMeta_def join_path_def Let_def)

theorem Init_reconciles_witness:
  "Init (ok_env [\<lparr>DatabaseID = ''B''\<rparr>, \<lparr>DatabaseID = ''C''\<rparr>]) hosting_A =
     (None, reconciled) \<and>
   registry hosting_A = {''A''} \<and>
   registry reconciled = {''B'', ''C''} \<and> stored reconciled = registry reconciled \<and>
   created (calls reconciled) = [''B'', ''C''] \<and> destroyed (calls reconciled) = [''A'']"
proof -
  have M: "readMeta hosting_A = Inr [''A'']"
    by (simp add: readMeta_def hosting_A_def NewDBMS_def)
  have C: "getMappedInstances (ok_env [\<lparr>DatabaseID = ''B''\<rparr>, \<lparr>DatabaseID = ''C''\<rparr>]) =
             Inr [\<lparr>DatabaseID = ''B''\<rparr>, \<lparr>DatabaseID = ''C''\<rparr>]"
    by (simp add: getMappedInstances_def ok_env_def)
  have reg: "registry hosting_A \<subseteq> set [''A'']"
    by (simp add: registry_def hosting_A_def NewDBMS_def)
  have ro: "\<forall>dbs. set (range_order (ok_env [\<lparr>DatabaseID = ''B''\<rparr>, \<lparr>DatabaseID = ''C''\<rparr>]) dbs) =
                  set dbs"
    by (simp add: ok_env_def)
  from Init_reconciles [OF Init_example M C reg ro]
  have "registry reconciled = DatabaseID ` set [\<lparr>DatabaseID = ''B''\<rparr>, \<lparr>DatabaseID = ''C''\<rparr>]"
    and "stored reconciled = registry reconciled" by blast+
  moreover have "registry hosting_A = {''A''}"
    by (simp add: registry_def hosting_A_def NewDBMS_def)
  moreover have "created (calls reconciled) = [''B'', ''C''] \<and>
                 destroyed (calls reconciled) = [''A'']"
    by (simp add: reconciled_def)
  ultimately show ?thesis using Init_example by simp
qed

text \<open>
  On the empty registry of a new DBMS no Drop can succeed: an id that only the meta file
  lists was never put into the registry, and \<^verbatim>\<open>Drop\<close> looks it up there. With the
  meta file listing A and B and the coordinator reporting B and C, Init creates B and C
  and then returns the not-exists error for A.
\<close>

lemma Init_new_DBMS_cannot_drop:
  "fst (Init (ok_env [\<lparr>DatabaseID = ''B''\<rparr>, \<lparr>DatabaseID = ''C''\<rparr>])
          (NewDBMS ''/data'' (MetaFile [''A'', ''B'']))) = Some ErrNotExists"
  by (simp add: Init_def readMeta_def getMappedInstances_def initDatabases_def ok_env_def
      NewDBMS_def Create_def Drop_def getMeta_def addMeta_def
      removeMeta_def writeMeta_def join_path_def Let_def)

section \<open>Properties of the private key store\<close>












end
